theory Spec2Isabelle
  imports Main
begin

section \<open>Tables (db/tables.ts)\<close>

text \<open>
  Column values: \<^verbatim>\<open>column.number\<close> is an integer column, read here as an unbounded
  \<^typ>\<open>int\<close> (counters stay far inside the range where JavaScript numbers are exact);
  \<^verbatim>\<open>column.text\<close> is a \<^typ>\<open>string\<close>; an optional column is an \<^typ>\<open>'a option\<close>
  (\<open>None\<close> is SQL \<open>NULL\<close>); \<^verbatim>\<open>column.date\<close> is a timestamp in milliseconds.
  Three tables have a column \<open>id\<close> and two a column \<open>userId\<close> or \<open>createdAt\<close>; those
  selectors carry the row's name as a prefix.
\<close>

datatype Difficulty = easy | medium | hard

record DailyChallenge =
  challenge_id :: int
  challengeDate :: string
  language :: string
  word :: string
  challenge_definition :: "string option"
  exampleSentence :: "string option"
  hint :: "string option"
  difficulty :: Difficulty
  meta :: "string option"
  isActive :: bool
  challenge_createdAt :: int

record Attempt =
  attempt_id :: int
  challengeId :: int
  attempt_userId :: string
  guess :: string
  isCorrect :: bool
  attemptNumber :: int
  attempt_createdAt :: int

text \<open>
  The six columns that \<open>recordAttempt\<close> recomputes are a record of their own, so that the
  object \<open>updatedStats\<close> of the handler and a row of \<open>UserChallengeStats\<close> share them.
\<close>

record StatsFields =
  totalPlayed :: int
  totalSolved :: int
  currentStreak :: int
  bestStreak :: int
  lastPlayedDate :: "string option"
  lastSolvedDate :: "string option"

record UserStats = StatsFields +
  stats_id :: int
  stats_userId :: string
  updatedAt :: int

section \<open>The database\<close>

text \<open>
  A table is the list of its rows in insertion order. Every query the handlers await is
  one entry of \<open>accesses\<close>, in the order the queries ran, so that "no storage access" and
  "no write" are statements about the state.
\<close>

datatype Table = TDailyChallenges | TDailyChallengeAttempts | TUserChallengeStats

datatype Access = Select Table | Insert Table | Update Table

record Db =
  DailyChallenges :: "DailyChallenge list"
  DailyChallengeAttempts :: "Attempt list"
  UserChallengeStats :: "UserStats list"
  accesses :: "Access list"

definition accessed :: "Access \<Rightarrow> Db \<Rightarrow> Db" where
  "accessed a d = d\<lparr>accesses := accesses d @ [a]\<rparr>"

text \<open>\<^verbatim>\<open>autoIncrement\<close>: one more than the largest id of the table, 1 in an empty table.\<close>

definition nextId :: "int list \<Rightarrow> int" where
  "nextId ids = fold max ids 0 + 1"

text \<open>\<^verbatim>\<open>const [x] = rows\<close>: the first row, or \<open>undefined\<close>.\<close>

fun firstRow :: "'a list \<Rightarrow> 'a option" where
  "firstRow [] = None"
| "firstRow (x # _) = Some x"

definition challengesById :: "int \<Rightarrow> Db \<Rightarrow> DailyChallenge list" where
  "challengesById cid d = filter (\<lambda>c. challenge_id c = cid) (DailyChallenges d)"

definition statsByUser :: "string \<Rightarrow> Db \<Rightarrow> UserStats list" where
  "statsByUser uid d = filter (\<lambda>s. stats_userId s = uid) (UserChallengeStats d)"

definition attemptsByUser :: "string \<Rightarrow> Db \<Rightarrow> Attempt list" where
  "attemptsByUser uid d = filter (\<lambda>a. attempt_userId a = uid) (DailyChallengeAttempts d)"

text \<open>\<^verbatim>\<open>db.select().from(DailyChallenges).where(eq(DailyChallenges.id, id)).limit(1)\<close>\<close>

definition selectChallenge :: "int \<Rightarrow> Db \<Rightarrow> DailyChallenge list \<times> Db" where
  "selectChallenge cid d = (take 1 (challengesById cid d), accessed (Select TDailyChallenges) d)"

text \<open>\<^verbatim>\<open>db.select().from(UserChallengeStats).where(eq(UserChallengeStats.userId, uid)).limit(1)\<close>\<close>

definition selectStats :: "string \<Rightarrow> Db \<Rightarrow> UserStats list \<times> Db" where
  "selectStats uid d = (take 1 (statsByUser uid d), accessed (Select TUserChallengeStats) d)"

text \<open>\<^verbatim>\<open>db.select().from(DailyChallengeAttempts).where(eq(DailyChallengeAttempts.userId, uid))\<close>\<close>

definition selectAttempts :: "string \<Rightarrow> Db \<Rightarrow> Attempt list \<times> Db" where
  "selectAttempts uid d = (attemptsByUser uid d, accessed (Select TDailyChallengeAttempts) d)"

text \<open>
  \<^verbatim>\<open>db.insert(DailyChallengeAttempts).values({...}).returning()\<close>: the database assigns the
  id and returns the row it stored.
\<close>

definition insertAttempt :: "int \<Rightarrow> string \<Rightarrow> string \<Rightarrow> bool \<Rightarrow> int \<Rightarrow> int \<Rightarrow> Db \<Rightarrow> Attempt \<times> Db" where
  "insertAttempt cid uid g ok n t d =
     (let row = \<lparr>attempt_id = nextId (map attempt_id (DailyChallengeAttempts d)),
                 challengeId = cid, attempt_userId = uid, guess = g, isCorrect = ok,
                 attemptNumber = n, attempt_createdAt = t\<rparr>
      in (row, accessed (Insert TDailyChallengeAttempts)
                 (d\<lparr>DailyChallengeAttempts := DailyChallengeAttempts d @ [row]\<rparr>)))"

text \<open>\<^verbatim>\<open>db.insert(UserChallengeStats).values(updatedStats)\<close>, \<open>updatedStats\<close> holding the six
  computed columns, \<open>userId\<close> and \<open>updatedAt\<close>.\<close>

definition insertStats :: "StatsFields \<Rightarrow> string \<Rightarrow> int \<Rightarrow> Db \<Rightarrow> Db" where
  "insertStats u uid t d =
     (let row = \<lparr>totalPlayed = totalPlayed u, totalSolved = totalSolved u,
                 currentStreak = currentStreak u, bestStreak = bestStreak u,
                 lastPlayedDate = lastPlayedDate u, lastSolvedDate = lastSolvedDate u,
                 stats_id = nextId (map stats_id (UserChallengeStats d)),
                 stats_userId = uid, updatedAt = t\<rparr>
      in accessed (Insert TUserChallengeStats)
           (d\<lparr>UserChallengeStats := UserChallengeStats d @ [row]\<rparr>))"

text \<open>\<^verbatim>\<open>db.update(UserChallengeStats).set(row).where(eq(UserChallengeStats.id, sid))\<close>: every
  column of every row with that id is set.\<close>

definition updateStats :: "UserStats \<Rightarrow> int \<Rightarrow> Db \<Rightarrow> Db" where
  "updateStats row sid d =
     accessed (Update TUserChallengeStats)
       (d\<lparr>UserChallengeStats := map (\<lambda>s. if stats_id s = sid then row else s) (UserChallengeStats d)\<rparr>)"

section \<open>Actions (src/actions/index.ts)\<close>

datatype ErrorCode = UNAUTHORIZED | NOT_FOUND

datatype ActionError = ActionError ErrorCode string

text \<open>\<^verbatim>\<open>App.Locals\<close> is declared outside the sources read here; the handlers use the
  user's \<open>id\<close> only.\<close>

record User =
  user_id :: string

record Locals =
  user :: "User option"

record ActionAPIContext =
  locals :: "Locals option"

definition requireUser :: "ActionAPIContext \<Rightarrow> ActionError + User" where
  "requireUser context =
     (case (case locals context of None \<Rightarrow> None | Some l \<Rightarrow> user l) of
        None \<Rightarrow> Inl (ActionError UNAUTHORIZED ''You must be signed in to perform this action.'')
      | Some u \<Rightarrow> Inr u)"

record RecordAttemptInput =
  input_challengeId :: int
  input_guess :: string
  input_isCorrect :: "bool option"
  input_attemptNumber :: "int option"

text \<open>The input schema of \<open>recordAttempt\<close> (checked before the handler runs).\<close>

definition recordAttemptSchema :: "RecordAttemptInput \<Rightarrow> bool" where
  "recordAttemptSchema input \<longleftrightarrow>
     1 \<le> length (input_guess input) \<and>
     (case input_attemptNumber input of None \<Rightarrow> True | Some n \<Rightarrow> 0 < n)"

text \<open>\<^verbatim>\<open>x ?? fallback\<close>\<close>

definition orElse :: "'a option \<Rightarrow> 'a \<Rightarrow> 'a" where
  "orElse x fallback = (case x of None \<Rightarrow> fallback | Some v \<Rightarrow> v)"

text \<open>The object \<open>updatedStats\<close> of \<open>recordAttempt\<close>, without \<open>userId\<close> and \<open>updatedAt\<close>,
  which only the branch for a first row adds.\<close>

definition updatedStats :: "'a StatsFields_scheme option \<Rightarrow> bool \<Rightarrow> string \<Rightarrow> StatsFields" where
  "updatedStats existingStats correct today =
     (case existingStats of
        Some e \<Rightarrow>
          \<lparr>totalPlayed = totalPlayed e + 1,
           totalSolved = totalSolved e + (if correct then 1 else 0),
           currentStreak = (if correct then currentStreak e + 1 else 0),
           bestStreak = (if correct then max (bestStreak e) (currentStreak e + 1) else bestStreak e),
           lastPlayedDate = Some today,
           lastSolvedDate = (if correct then Some today else lastSolvedDate e)\<rparr>
      | None \<Rightarrow>
          \<lparr>totalPlayed = 1,
           totalSolved = (if correct then 1 else 0),
           currentStreak = (if correct then 1 else 0),
           bestStreak = (if correct then 1 else 0),
           lastPlayedDate = Some today,
           lastSolvedDate = (if correct then Some today else None)\<rparr>)"

text \<open>The row that the update sets: \<^verbatim>\<open>{...existingStats, ...updatedStats, updatedAt}\<close>.\<close>

definition mergedStats :: "UserStats \<Rightarrow> StatsFields \<Rightarrow> int \<Rightarrow> UserStats" where
  "mergedStats e u t =
     e\<lparr>totalPlayed := totalPlayed u, totalSolved := totalSolved u,
       currentStreak := currentStreak u, bestStreak := bestStreak u,
       lastPlayedDate := lastPlayedDate u, lastSolvedDate := lastSolvedDate u,
       updatedAt := t\<rparr>"

text \<open>
  \<open>recordAttempt\<close> awaits four queries. Each of the four functions below is the handler's
  code up to and including one of them; \<open>t_attempt\<close> and \<open>t_stats\<close> are the two readings
  of the clock (\<^verbatim>\<open>new Date()\<close>).
\<close>

definition loadChallenge :: "RecordAttemptInput \<Rightarrow> ActionAPIContext \<Rightarrow> Db \<Rightarrow> (ActionError + User \<times> DailyChallenge) \<times> Db" where
  "loadChallenge input context d =
     (case requireUser context of
        Inl e \<Rightarrow> (Inl e, d)
      | Inr u \<Rightarrow>
          (case selectChallenge (input_challengeId input) d of
             (rows, d1) \<Rightarrow>
               (case firstRow rows of
                  None \<Rightarrow> (Inl (ActionError NOT_FOUND ''Challenge not available.''), d1)
                | Some challenge \<Rightarrow>
                    if \<not> isActive challenge
                    then (Inl (ActionError NOT_FOUND ''Challenge not available.''), d1)
                    else (Inr (u, challenge), d1))))"

definition storeAttempt :: "RecordAttemptInput \<Rightarrow> User \<Rightarrow> int \<Rightarrow> Db \<Rightarrow> Attempt \<times> Db" where
  "storeAttempt input u t_attempt d =
     insertAttempt (input_challengeId input) (user_id u) (input_guess input)
       (orElse (input_isCorrect input) False) (orElse (input_attemptNumber input) 1) t_attempt d"

definition loadStats :: "User \<Rightarrow> Db \<Rightarrow> UserStats option \<times> Db" where
  "loadStats u d = (case selectStats (user_id u) d of (rows, d1) \<Rightarrow> (firstRow rows, d1))"

definition writeStats :: "RecordAttemptInput \<Rightarrow> User \<Rightarrow> DailyChallenge \<Rightarrow> UserStats option \<Rightarrow> int \<Rightarrow> Db \<Rightarrow> Db" where
  "writeStats input u challenge existingStats t_stats d =
     (let correct = orElse (input_isCorrect input) False;
          today = challengeDate challenge;
          updated = updatedStats existingStats correct today
      in case existingStats of
           Some e \<Rightarrow> updateStats (mergedStats e updated t_stats) (stats_id e) d
         | None \<Rightarrow> insertStats updated (user_id u) t_stats d)"

definition recordAttempt :: "RecordAttemptInput \<Rightarrow> ActionAPIContext \<Rightarrow> int \<Rightarrow> int \<Rightarrow> Db \<Rightarrow> (ActionError + Attempt) \<times> Db" where
  "recordAttempt input context t_attempt t_stats d =
     (case loadChallenge input context d of
        (Inl e, d1) \<Rightarrow> (Inl e, d1)
      | (Inr (u, challenge), d1) \<Rightarrow>
          (case storeAttempt input u t_attempt d1 of
             (attempt, d2) \<Rightarrow>
               (case loadStats u d2 of
                  (existingStats, d3) \<Rightarrow>
                    (Inr attempt, writeStats input u challenge existingStats t_stats d3))))"

record ListAttemptsInput =
  filter_challengeId :: "int option"

text \<open>\<^verbatim>\<open>input?.challengeId\<close> as a condition: true for a number other than 0.\<close>

definition truthyChallengeId :: "ListAttemptsInput option \<Rightarrow> bool" where
  "truthyChallengeId input =
     (case input of
        None \<Rightarrow> False
      | Some i \<Rightarrow> (case filter_challengeId i of None \<Rightarrow> False | Some c \<Rightarrow> c \<noteq> 0))"

definition listAttempts :: "ListAttemptsInput option \<Rightarrow> ActionAPIContext \<Rightarrow> Db \<Rightarrow> (ActionError + Attempt list) \<times> Db" where
  "listAttempts input context d =
     (case requireUser context of
        Inl e \<Rightarrow> (Inl e, d)
      | Inr u \<Rightarrow>
          (case selectAttempts (user_id u) d of
             (attempts, d1) \<Rightarrow>
               (if truthyChallengeId input
                then (Inr (filter (\<lambda>a. Some (challengeId a) = (case input of None \<Rightarrow> None | Some i \<Rightarrow> filter_challengeId i)) attempts), d1)
                else (Inr attempts, d1))))"

definition getStats :: "ActionAPIContext \<Rightarrow> Db \<Rightarrow> (ActionError + UserStats option) \<times> Db" where
  "getStats context d =
     (case requireUser context of
        Inl e \<Rightarrow> (Inl e, d)
      | Inr u \<Rightarrow>
          (case selectStats (user_id u) d of
             (rows, d1) \<Rightarrow> (Inr (firstRow rows), d1)))"

section \<open>Observations and drivers\<close>

text \<open>What the two lookups of \<open>recordAttempt\<close> find: the first challenge with the id, the
  first statistics row of the user (the row \<open>getStats\<close> returns).\<close>

definition challengeOf :: "int \<Rightarrow> Db \<Rightarrow> DailyChallenge option" where
  "challengeOf cid d = firstRow (challengesById cid d)"

definition statsOf :: "string \<Rightarrow> Db \<Rightarrow> UserStats option" where
  "statsOf uid d = firstRow (statsByUser uid d)"

definition findsActive :: "RecordAttemptInput \<Rightarrow> Db \<Rightarrow> bool" where
  "findsActive input d =
     (case challengeOf (input_challengeId input) d of None \<Rightarrow> False | Some c \<Rightarrow> isActive c)"

text \<open>The outcome of a call: the caller's verdict and the date of the challenge, as
  \<open>recordAttempt\<close> computes \<open>isCorrect\<close> and \<open>today\<close>.\<close>

definition outcomeOf :: "Db \<Rightarrow> RecordAttemptInput \<Rightarrow> bool \<times> string" where
  "outcomeOf d input =
     (orElse (input_isCorrect input) False,
      case challengeOf (input_challengeId input) d of None \<Rightarrow> [] | Some c \<Rightarrow> challengeDate c)"

text \<open>A call is an input with its two clock readings; \<open>recordAttempts\<close> makes the calls of
  one caller one after another, each finished before the next starts.\<close>

type_synonym Call = "RecordAttemptInput \<times> int \<times> int"

fun recordAttempts :: "Call list \<Rightarrow> ActionAPIContext \<Rightarrow> Db \<Rightarrow> Db" where
  "recordAttempts [] context d = d"
| "recordAttempts ((input, t_attempt, t_stats) # calls) context d =
     recordAttempts calls context (snd (recordAttempt input context t_attempt t_stats d))"

text \<open>The transition of \<open>updatedStats\<close> alone, applied to a sequence of outcomes.\<close>

fun applyOutcomes :: "StatsFields option \<Rightarrow> (bool \<times> string) list \<Rightarrow> StatsFields option" where
  "applyOutcomes st [] = st"
| "applyOutcomes st ((correct, today) # os) = applyOutcomes (Some (updatedStats st correct today)) os"

section \<open>Interleaved calls\<close>





text \<open>What every statistics row reached from no row satisfies.\<close>

definition consistent :: "'a StatsFields_scheme \<Rightarrow> bool" where
  "consistent s \<longleftrightarrow> totalSolved s \<le> totalPlayed s \<and> currentStreak s \<le> bestStreak s \<and> 0 \<le> bestStreak s"

section \<open>A small database for the worked cases\<close>

definition alice :: User where
  "alice = \<lparr>user_id = ''alice''\<rparr>"

definition signedIn :: ActionAPIContext where
  "signedIn = \<lparr>locals = Some \<lparr>user = Some alice\<rparr>\<rparr>"

definition signedOut :: ActionAPIContext where
  "signedOut = \<lparr>locals = Some \<lparr>user = None\<rparr>\<rparr>"

definition challengeOn :: "int \<Rightarrow> string \<Rightarrow> bool \<Rightarrow> DailyChallenge" where
  "challengeOn n day active =
     \<lparr>challenge_id = n, challengeDate = day, language = ''en'', word = ''apple'',
      challenge_definition = None, exampleSentence = None, hint = None, difficulty = medium,
      meta = None, isActive = active, challenge_createdAt = 0\<rparr>"

definition day1 :: DailyChallenge where
  "day1 = challengeOn 1 ''2025-01-01'' True"

definition day2 :: DailyChallenge where
  "day2 = challengeOn 2 ''2025-01-02'' True"

definition day3 :: DailyChallenge where
  "day3 = challengeOn 3 ''2025-01-03'' True"

definition retired :: DailyChallenge where
  "retired = challengeOn 4 ''2025-01-04'' False"

definition db0 :: Db where
  "db0 = \<lparr>DailyChallenges = [day1, day2, day3, retired], DailyChallengeAttempts = [],
          UserChallengeStats = [], accesses = []\<rparr>"

definition guessFor :: "int \<Rightarrow> bool option \<Rightarrow> RecordAttemptInput" where
  "guessFor cid verdict =
     \<lparr>input_challengeId = cid, input_guess = ''apple'', input_isCorrect = verdict,
      input_attemptNumber = None\<rparr>"

text \<open>The spec's end-to-end scenarios: a correct attempt on the first day, then an incorrect
  one on the second.\<close>

definition db1 :: Db where
  "db1 = recordAttempts [(guessFor 1 (Some True), 10, 11)] signedIn db0"

definition db2 :: Db where
  "db2 = recordAttempts [(guessFor 1 (Some True), 10, 11), (guessFor 2 (Some False), 20, 21)] signedIn db0"

text \<open>The three scenario calls in order: correct, incorrect, correct.\<close>

definition scenarioCalls :: "Call list" where
  "scenarioCalls = [(guessFor 1 (Some True), 10, 11), (guessFor 2 (Some False), 20, 21),
                    (guessFor 3 (Some True), 30, 31)]"



text \<open>A database with attempts of two users, the second user's row between the first
  user's two.\<close>

definition dbShared :: Db where
  "dbShared =
     \<lparr>DailyChallenges = [day1, day2, day3, retired],
      DailyChallengeAttempts =
        [\<lparr>attempt_id = 1, challengeId = 1, attempt_userId = ''alice'', guess = ''apple'',
          isCorrect = True, attemptNumber = 1, attempt_createdAt = 10\<rparr>,
         \<lparr>attempt_id = 2, challengeId = 1, attempt_userId = ''bob'', guess = ''pear'',
          isCorrect = False, attemptNumber = 1, attempt_createdAt = 15\<rparr>,
         \<lparr>attempt_id = 3, challengeId = 2, attempt_userId = ''alice'', guess = ''apple'',
          isCorrect = False, attemptNumber = 1, attempt_createdAt = 20\<rparr>],
      UserChallengeStats = [], accesses = []\<rparr>"

section \<open>Lookups and frames\<close>

lemma firstRow_take: "firstRow (take (Suc 0) xs) = firstRow xs"
  by (cases xs) simp_all

lemma firstRow_filter_append:
  "firstRow (filter P xs) = None \<Longrightarrow> P row \<Longrightarrow> firstRow (filter P (xs @ [row])) = Some row"
  by (induction xs) (auto split: if_splits)

lemma firstRow_filter_update:
  "firstRow (filter P xs) = Some e \<Longrightarrow> P row \<Longrightarrow>
   firstRow (filter P (map (\<lambda>s. if stats_id s = stats_id e then row else s) xs)) = Some row"
  by (induction xs) (auto split: if_splits)


lemma loadChallenge_found:
  assumes "requireUser ctx = Inr u" "challengeOf (input_challengeId input) d = Some c" "isActive c"
  shows "loadChallenge input ctx d = (Inr (u, c), accessed (Select TDailyChallenges) d)"
  using assms by (simp add: loadChallenge_def selectChallenge_def challengeOf_def firstRow_take)

lemma loadChallenge_missing:
  assumes "requireUser ctx = Inr u" "\<not> findsActive input d"
  shows "loadChallenge input ctx d =
           (Inl (ActionError NOT_FOUND ''Challenge not available.''), accessed (Select TDailyChallenges) d)"
  using assms
  by (auto simp add: loadChallenge_def selectChallenge_def challengeOf_def findsActive_def firstRow_take
      split: option.splits)

lemma recordAttempt_found:
  assumes "requireUser ctx = Inr u" "challengeOf (input_challengeId input) d = Some c" "isActive c"
  shows "recordAttempt input ctx t_attempt t_stats d =
     (let d1 = accessed (Select TDailyChallenges) d;
          r = storeAttempt input u t_attempt d1;
          d3 = accessed (Select TUserChallengeStats) (snd r)
      in (Inr (fst r), writeStats input u c (statsOf (user_id u) d) t_stats d3))"
  using assms
  by (simp add: recordAttempt_def loadChallenge_found loadStats_def selectStats_def statsOf_def
      statsByUser_def storeAttempt_def insertAttempt_def accessed_def firstRow_take Let_def)

lemma statsOf_insertStats:
  assumes "statsOf uid d = None"
  shows "statsOf uid (insertStats f uid t d) =
     Some \<lparr>totalPlayed = totalPlayed f, totalSolved = totalSolved f,
           currentStreak = currentStreak f, bestStreak = bestStreak f,
           lastPlayedDate = lastPlayedDate f, lastSolvedDate = lastSolvedDate f,
           stats_id = nextId (map stats_id (UserChallengeStats d)),
           stats_userId = uid, updatedAt = t\<rparr>"
proof -
  have "firstRow (filter (\<lambda>s. stats_userId s = uid) (UserChallengeStats d)) = None"
    using assms by (simp add: statsOf_def statsByUser_def)
  from firstRow_filter_append [OF this, of "\<lparr>totalPlayed = totalPlayed f, totalSolved = totalSolved f,
           currentStreak = currentStreak f, bestStreak = bestStreak f,
           lastPlayedDate = lastPlayedDate f, lastSolvedDate = lastSolvedDate f,
           stats_id = nextId (map stats_id (UserChallengeStats d)),
           stats_userId = uid, updatedAt = t\<rparr>"]
  show ?thesis
    by (simp add: insertStats_def statsOf_def statsByUser_def accessed_def Let_def)
qed

lemma statsOf_userId: "statsOf uid d = Some e \<Longrightarrow> stats_userId e = uid"
proof -
  have "firstRow (filter P xs) = Some e \<Longrightarrow> P e" for P and xs :: "UserStats list"
    by (induction xs) (auto split: if_splits)
  then show "statsOf uid d = Some e \<Longrightarrow> stats_userId e = uid"
    unfolding statsOf_def statsByUser_def by blast
qed

lemma statsOf_updateStats:
  assumes "statsOf uid d = Some e" "stats_userId row = uid"
  shows "statsOf uid (updateStats row (stats_id e) d) = Some row"
proof -
  have "firstRow (filter (\<lambda>s. stats_userId s = uid) (UserChallengeStats d)) = Some e"
    using assms by (simp add: statsOf_def statsByUser_def)
  from firstRow_filter_update [OF this, of row] assms(2)
  show ?thesis
    by (simp add: updateStats_def statsOf_def statsByUser_def accessed_def)
qed

lemma statsOf_writeStats:
  assumes "statsOf (user_id u) d = st"
  shows "\<exists>s. statsOf (user_id u) (writeStats input u c st t d) = Some s \<and>
             StatsFields.truncate s = updatedStats st (orElse (input_isCorrect input) False) (challengeDate c)
           \<and> stats_userId s = user_id u \<and> updatedAt s = t"
proof (cases st)
  case None
  then show ?thesis using assms
    by (simp add: writeStats_def statsOf_insertStats StatsFields.truncate_def)
next
  case (Some e)
  then have e: "statsOf (user_id u) d = Some e"
    using assms by simp
  from statsOf_userId [OF e] have "stats_userId (mergedStats e f t) = user_id u" for f
    by (simp add: mergedStats_def)
  from statsOf_updateStats [OF e this] Some statsOf_userId [OF e]
  show ?thesis 
    by (simp add: writeStats_def StatsFields.truncate_def mergedStats_def Let_def)
qed

lemma getStats_statsOf:
  "requireUser ctx = Inr u \<Longrightarrow> fst (getStats ctx d) = Inr (statsOf (user_id u) d)"
  by (simp add: getStats_def selectStats_def statsOf_def firstRow_take)

lemma statsOf_accessed [simp]: "statsOf uid (accessed a d) = statsOf uid d"
  by (simp add: statsOf_def statsByUser_def accessed_def)

lemma statsOf_storeAttempt [simp]: "statsOf uid (snd (storeAttempt input u t d)) = statsOf uid d"
  by (simp add: statsOf_def statsByUser_def accessed_def storeAttempt_def insertAttempt_def Let_def)

lemma challenges_accessed [simp]: "DailyChallenges (accessed a d) = DailyChallenges d"
  by (simp add: accessed_def)

lemma challenges_storeAttempt [simp]: "DailyChallenges (snd (storeAttempt input u t d)) = DailyChallenges d"
  by (simp add: accessed_def storeAttempt_def insertAttempt_def Let_def)

lemma challenges_writeStats [simp]: "DailyChallenges (writeStats input u c st t d) = DailyChallenges d"
  by (simp add: writeStats_def insertStats_def updateStats_def accessed_def Let_def split: option.splits)

lemma challenges_loadChallenge [simp]: "DailyChallenges (snd (loadChallenge input ctx d)) = DailyChallenges d"
  by (simp add: loadChallenge_def selectChallenge_def split: sum.splits option.splits)

lemma challenges_recordAttempt:
  "DailyChallenges (snd (recordAttempt input ctx t_attempt t_stats d)) = DailyChallenges d"
proof (cases "loadChallenge input ctx d")
  case (Pair r d1)
  then have "DailyChallenges d1 = DailyChallenges d"
    using challenges_loadChallenge [of input ctx d] by simp
  moreover have "DailyChallenges d2 = DailyChallenges d1"
    if "storeAttempt input v t_attempt d1 = (a, d2)" for v a d2
    using challenges_storeAttempt [of input v t_attempt d1] that by simp
  ultimately show ?thesis using Pair
    by (cases r) (auto simp add: recordAttempt_def loadStats_def selectStats_def split: prod.splits)
qed

lemma challengeOf_recordAttempt [simp]:
  "challengeOf cid (snd (recordAttempt input ctx t_attempt t_stats d)) = challengeOf cid d"
  by (simp add: challengeOf_def challengesById_def challenges_recordAttempt)

lemma findsActive_recordAttempt [simp]:
  "findsActive i (snd (recordAttempt input ctx t_attempt t_stats d)) = findsActive i d"
  by (simp add: findsActive_def)

lemma outcomeOf_recordAttempt [simp]:
  "outcomeOf (snd (recordAttempt input ctx t_attempt t_stats d)) = outcomeOf d"
  by (rule ext) (simp add: outcomeOf_def)

lemma findsActive_challenge:
  "findsActive input d \<Longrightarrow> \<exists>c. challengeOf (input_challengeId input) d = Some c \<and> isActive c"
  by (simp add: findsActive_def split: option.splits)

lemma statsOf_recordAttempt:
  assumes "requireUser ctx = Inr u" "challengeOf (input_challengeId input) d = Some c" "isActive c"
  shows "\<exists>s. statsOf (user_id u) (snd (recordAttempt input ctx t_attempt t_stats d)) = Some s \<and>
             StatsFields.truncate s =
               updatedStats (statsOf (user_id u) d) (orElse (input_isCorrect input) False) (challengeDate c) \<and>
             stats_userId s = user_id u \<and> updatedAt s = t_stats"
proof -
  let ?d3 = "accessed (Select TUserChallengeStats)
               (snd (storeAttempt input u t_attempt (accessed (Select TDailyChallenges) d)))"
  have "statsOf (user_id u) ?d3 = statsOf (user_id u) d" by simp
  from statsOf_writeStats [OF this, of input c t_stats] show ?thesis
    by (simp add: recordAttempt_found [OF assms] Let_def)
qed

lemma updatedStats_truncate:
  "updatedStats (map_option StatsFields.truncate st) correct today = updatedStats st correct today"
  by (cases st) (simp_all add: updatedStats_def StatsFields.truncate_def)

lemma statsOf_recordAttempts:
  assumes "requireUser ctx = Inr u" "\<forall>x\<in>set calls. findsActive (fst x) d"
  shows "map_option StatsFields.truncate (statsOf (user_id u) (recordAttempts calls ctx d)) =
         applyOutcomes (map_option StatsFields.truncate (statsOf (user_id u) d))
           (map (\<lambda>x. outcomeOf d (fst x)) calls)"
  using assms(2)
proof (induction calls arbitrary: d)
  case Nil
  then show ?case by simp
next
  case (Cons x calls)
  obtain input t_attempt t_stats where x: "x = (input, t_attempt, t_stats)"
    by (cases x) auto
  let ?d' = "snd (recordAttempt input ctx t_attempt t_stats d)"
  have "findsActive input d"
    using Cons.prems x by simp
  from findsActive_challenge [OF this]
  obtain c where c: "challengeOf (input_challengeId input) d = Some c" "isActive c"
    by blast
  from statsOf_recordAttempt [OF assms(1) c, of t_attempt t_stats]
  obtain s where s: "statsOf (user_id u) ?d' = Some s"
    "StatsFields.truncate s =
       updatedStats (statsOf (user_id u) d) (orElse (input_isCorrect input) False) (challengeDate c)"
    by blast
  have "\<forall>y\<in>set calls. findsActive (fst y) ?d'"
    using Cons.prems by simp
  from Cons.IH [OF this] s c show ?case
    by (simp add: x outcomeOf_def updatedStats_truncate)
qed

section \<open>Sequences of outcomes\<close>

lemma fields_truncate:
  "totalPlayed (StatsFields.truncate s) = totalPlayed s"
  "totalSolved (StatsFields.truncate s) = totalSolved s"
  "currentStreak (StatsFields.truncate s) = currentStreak s"
  "bestStreak (StatsFields.truncate s) = bestStreak s"
  "lastPlayedDate (StatsFields.truncate s) = lastPlayedDate s"
  "lastSolvedDate (StatsFields.truncate s) = lastSolvedDate s"
  by (simp_all add: StatsFields.truncate_def)

lemma applyOutcomes_Some: "\<exists>s. applyOutcomes (Some p) os = Some s"
  by (induction os arbitrary: p) auto

lemma applyOutcomes_None: "applyOutcomes None os = None \<longleftrightarrow> os = []"
proof (cases os)
  case Nil
  then show ?thesis by simp
next
  case (Cons x os')
  then show ?thesis
    using applyOutcomes_Some [of "updatedStats None (fst x) (snd x)" os'] by (cases x) auto
qed

lemma applyOutcomes_totals:
  "applyOutcomes (Some p) os = Some s \<Longrightarrow>
   totalPlayed s = totalPlayed p + int (length os) \<and>
   totalSolved s = totalSolved p + int (length (filter fst os))"
  by (induction os arbitrary: p) (auto simp add: updatedStats_def)

lemma applyOutcomes_totals_fresh:
  "applyOutcomes None os = Some s \<Longrightarrow>
   totalPlayed s = int (length os) \<and> totalSolved s = int (length (filter fst os))"
proof (cases os)
  case Nil
  then show "applyOutcomes None os = Some s \<Longrightarrow> ?thesis" by simp
next
  case (Cons x os')
  obtain correct today where o: "x = (correct, today)" by (cases x)
  assume "applyOutcomes None os = Some s"
  then have "applyOutcomes (Some (updatedStats (None :: StatsFields option) correct today)) os' = Some s"
    by (simp add: Cons o)
  from applyOutcomes_totals [OF this] show ?thesis
    by (simp add: Cons o updatedStats_def)
qed



lemma consistent_first: "consistent (updatedStats None correct today)"
  by (simp add: consistent_def updatedStats_def)

lemma consistent_next: "consistent p \<Longrightarrow> consistent (updatedStats (Some p) correct today)"
  by (auto simp add: consistent_def updatedStats_def)

lemma bestStreak_next: "bestStreak p \<le> bestStreak (updatedStats (Some p) correct today)"
  by (simp add: updatedStats_def)

lemma applyOutcomes_consistent:
  "consistent p \<Longrightarrow> applyOutcomes (Some p) os = Some s \<Longrightarrow> consistent s"
proof (induction os arbitrary: p)
  case Nil
  then show ?case by simp
next
  case (Cons x os)
  obtain correct today where x: "x = (correct, today)" by (cases x)
  from Cons.prems(2) have "applyOutcomes (Some (updatedStats (Some p) correct today)) os = Some s"
    by (simp add: x)
  from Cons.IH [OF consistent_next [OF Cons.prems(1)] this] show ?case .
qed

lemma applyOutcomes_consistent_fresh:
  assumes "applyOutcomes None os = Some s"
  shows "consistent s"
proof (cases os)
  case Nil
  then show ?thesis using assms by simp
next
  case (Cons x os')
  obtain correct today where o: "x = (correct, today)" by (cases x)
  have "applyOutcomes (Some (updatedStats (None :: StatsFields option) correct today)) os' = Some s"
    using assms by (simp add: Cons o)
  from applyOutcomes_consistent [OF consistent_first this] show ?thesis .
qed

lemma recordAttempts_append:
  "recordAttempts (xs @ ys) ctx d = recordAttempts ys ctx (recordAttempts xs ctx d)"
  by (induction xs arbitrary: d) auto

lemma challengeOf_recordAttempts [simp]:
  "challengeOf cid (recordAttempts calls ctx d) = challengeOf cid d"
  by (induction calls arbitrary: d) auto

lemma findsActive_recordAttempts [simp]:
  "findsActive i (recordAttempts calls ctx d) = findsActive i d"
  by (simp add: findsActive_def)

lemma fst_outcomeOf: "fst (outcomeOf d i) = orElse (input_isCorrect i) False"
  by (simp add: outcomeOf_def)

section \<open>The worked cases, evaluated\<close>

lemmas fixture_defs = alice_def signedIn_def signedOut_def challengeOn_def day1_def day2_def day3_def
  retired_def db0_def guessFor_def

lemmas run_defs = recordAttempt_def loadChallenge_def storeAttempt_def loadStats_def writeStats_def
  requireUser_def selectChallenge_def selectStats_def insertAttempt_def insertStats_def updateStats_def
  accessed_def nextId_def challengesById_def statsByUser_def updatedStats_def mergedStats_def orElse_def
  statsOf_def challengeOf_def Let_def

lemma requireUser_signedIn: "requireUser signedIn = Inr alice"
  by (simp add: requireUser_def signedIn_def)

lemma challengeOf_db0:
  "challengeOf 1 db0 = Some day1" "challengeOf 2 db0 = Some day2" "challengeOf 3 db0 = Some day3"
  "challengeOf 4 db0 = Some retired" "challengeOf 5 db0 = None"
  by (simp_all add: challengeOf_def challengesById_def fixture_defs)

lemma isActive_days: "isActive day1" "isActive day2" "isActive day3" "\<not> isActive retired"
  by (simp_all add: fixture_defs)

lemma challengeDate_days:
  "challengeDate day1 = ''2025-01-01''" "challengeDate day2 = ''2025-01-02''"
  "challengeDate day3 = ''2025-01-03''"
  by (simp_all add: fixture_defs)

lemma db1_eq:
  "db1 = db0\<lparr>DailyChallengeAttempts :=
            [\<lparr>attempt_id = 1, challengeId = 1, attempt_userId = ''alice'', guess = ''apple'',
              isCorrect = True, attemptNumber = 1, attempt_createdAt = 10\<rparr>],
          UserChallengeStats :=
            [\<lparr>totalPlayed = 1, totalSolved = 1, currentStreak = 1, bestStreak = 1,
              lastPlayedDate = Some ''2025-01-01'', lastSolvedDate = Some ''2025-01-01'',
              stats_id = 1, stats_userId = ''alice'', updatedAt = 11\<rparr>],
          accesses := [Select TDailyChallenges, Insert TDailyChallengeAttempts,
                       Select TUserChallengeStats, Insert TUserChallengeStats]\<rparr>"
  by (simp add: db1_def run_defs fixture_defs)

lemma db2_eq:
  "db2 = db0\<lparr>DailyChallengeAttempts :=
            [\<lparr>attempt_id = 1, challengeId = 1, attempt_userId = ''alice'', guess = ''apple'',
              isCorrect = True, attemptNumber = 1, attempt_createdAt = 10\<rparr>,
             \<lparr>attempt_id = 2, challengeId = 2, attempt_userId = ''alice'', guess = ''apple'',
              isCorrect = False, attemptNumber = 1, attempt_createdAt = 20\<rparr>],
          UserChallengeStats :=
            [\<lparr>totalPlayed = 2, totalSolved = 1, currentStreak = 0, bestStreak = 1,
              lastPlayedDate = Some ''2025-01-02'', lastSolvedDate = Some ''2025-01-01'',
              stats_id = 1, stats_userId = ''alice'', updatedAt = 21\<rparr>],
          accesses := [Select TDailyChallenges, Insert TDailyChallengeAttempts,
                       Select TUserChallengeStats, Insert TUserChallengeStats,
                       Select TDailyChallenges, Insert TDailyChallengeAttempts,
                       Select TUserChallengeStats, Update TUserChallengeStats]\<rparr>"
  by (simp add: db2_def run_defs fixture_defs)

lemma statsOf_fixtures:
  "statsOf ''alice'' db0 = None"
  "statsOf ''alice'' db1 =
     Some \<lparr>totalPlayed = 1, totalSolved = 1, currentStreak = 1, bestStreak = 1,
           lastPlayedDate = Some ''2025-01-01'', lastSolvedDate = Some ''2025-01-01'',
           stats_id = 1, stats_userId = ''alice'', updatedAt = 11\<rparr>"
  "statsOf ''alice'' db2 =
     Some \<lparr>totalPlayed = 2, totalSolved = 1, currentStreak = 0, bestStreak = 1,
           lastPlayedDate = Some ''2025-01-02'', lastSolvedDate = Some ''2025-01-01'',
           stats_id = 1, stats_userId = ''alice'', updatedAt = 21\<rparr>"
    by (simp_all add: db1_eq db2_eq statsOf_def statsByUser_def db0_def)

lemma challengeOf_later:
  "challengeOf n db1 = challengeOf n db0" "challengeOf n db2 = challengeOf n db0"
  by (simp_all add: db1_eq db2_eq challengeOf_def challengesById_def)

lemma findsActive_db0:
  "findsActive (guessFor 1 v) db0" "findsActive (guessFor 2 v) db0" "findsActive (guessFor 3 v) db0"
  "\<not> findsActive (guessFor 4 v) db0" "\<not> findsActive (guessFor 5 v) db0"
  by (simp_all add: findsActive_def guessFor_def challengeOf_db0 isActive_days)

lemma guessFor_schema: "recordAttemptSchema (guessFor n v)"
  by (simp add: recordAttemptSchema_def guessFor_def)

lemma alice_id: "user_id alice = ''alice''"
  by (simp add: alice_def)

lemma guessFor_sel:
  "input_challengeId (guessFor n v) = n" "input_isCorrect (guessFor n v) = v"
  by (simp_all add: guessFor_def)

section \<open>The transition table\<close>

text \<open>
  C1. A call of \<open>recordAttempt\<close> by a signed-in user that finds an active challenge leaves
  the user with a statistics row that follows the four rows of the transition table:
  without a prior row, (1, 1, 1, 1, date, date) for a correct outcome and
  (1, 0, 0, 0, date, unset) for an incorrect one; with a prior row, (played + 1,
  solved + 1, current + 1, max best (current + 1), date, date) for a correct outcome and
  (played + 1, solved, 0, best, date, the prior solved date) for an incorrect one. The
  date is the challenge's date; an omitted verdict counts as incorrect.
\<close>

theorem recordAttempt_transition_table:
  assumes "requireUser ctx = Inr u"
    and "challengeOf (input_challengeId input) d = Some c" and "isActive c"
  shows "\<exists>s. statsOf (user_id u) (snd (recordAttempt input ctx t_attempt t_stats d)) = Some s \<and>
    (case statsOf (user_id u) d of
       None \<Rightarrow>
         if orElse (input_isCorrect input) False
         then totalPlayed s = 1 \<and> totalSolved s = 1 \<and> currentStreak s = 1 \<and> bestStreak s = 1 \<and>
              lastPlayedDate s = Some (challengeDate c) \<and> lastSolvedDate s = Some (challengeDate c)
         else totalPlayed s = 1 \<and> totalSolved s = 0 \<and> currentStreak s = 0 \<and> bestStreak s = 0 \<and>
              lastPlayedDate s = Some (challengeDate c) \<and> lastSolvedDate s = None
     | Some prior \<Rightarrow>
         if orElse (input_isCorrect input) False
         then totalPlayed s = totalPlayed prior + 1 \<and> totalSolved s = totalSolved prior + 1 \<and>
              currentStreak s = currentStreak prior + 1 \<and>
              bestStreak s = max (bestStreak prior) (currentStreak prior + 1) \<and>
              lastPlayedDate s = Some (challengeDate c) \<and> lastSolvedDate s = Some (challengeDate c)
         else totalPlayed s = totalPlayed prior + 1 \<and> totalSolved s = totalSolved prior \<and>
              currentStreak s = 0 \<and> bestStreak s = bestStreak prior \<and>
              lastPlayedDate s = Some (challengeDate c) \<and> lastSolvedDate s = lastSolvedDate prior)"
proof -
  from statsOf_recordAttempt [OF assms, of t_attempt t_stats]
  obtain s where s: "statsOf (user_id u) (snd (recordAttempt input ctx t_attempt t_stats d)) = Some s"
    and f: "StatsFields.truncate s =
       updatedStats (statsOf (user_id u) d) (orElse (input_isCorrect input) False) (challengeDate c)"
    by blast
  have sel: "totalPlayed s = totalPlayed (StatsFields.truncate s)"
    "totalSolved s = totalSolved (StatsFields.truncate s)"
    "currentStreak s = currentStreak (StatsFields.truncate s)"
    "bestStreak s = bestStreak (StatsFields.truncate s)"
    "lastPlayedDate s = lastPlayedDate (StatsFields.truncate s)"
    "lastSolvedDate s = lastSolvedDate (StatsFields.truncate s)"
    by (simp_all add: StatsFields.truncate_def)
  show ?thesis
    by (rule exI [of _ s]) (simp add: s sel f updatedStats_def split: option.splits)
qed

theorem recordAttempt_transition_table_witness:
  "(\<exists>s. statsOf ''alice'' (snd (recordAttempt (guessFor 1 (Some True)) signedIn 10 11 db0)) = Some s \<and>
        totalPlayed s = 1 \<and> totalSolved s = 1 \<and> currentStreak s = 1 \<and> bestStreak s = 1 \<and>
        lastPlayedDate s = Some ''2025-01-01'' \<and> lastSolvedDate s = Some ''2025-01-01'') \<and>
   (\<exists>s. statsOf ''alice'' (snd (recordAttempt (guessFor 2 None) signedIn 10 11 db0)) = Some s \<and>
        totalPlayed s = 1 \<and> totalSolved s = 0 \<and> currentStreak s = 0 \<and> bestStreak s = 0 \<and>
        lastPlayedDate s = Some ''2025-01-02'' \<and> lastSolvedDate s = None) \<and>
   (\<exists>s. statsOf ''alice'' (snd (recordAttempt (guessFor 2 (Some False)) signedIn 20 21 db1)) = Some s \<and>
        totalPlayed s = 2 \<and> totalSolved s = 1 \<and> currentStreak s = 0 \<and> bestStreak s = 1 \<and>
        lastPlayedDate s = Some ''2025-01-02'' \<and> lastSolvedDate s = Some ''2025-01-01'') \<and>
   (\<exists>s. statsOf ''alice'' (snd (recordAttempt (guessFor 3 (Some True)) signedIn 30 31 db2)) = Some s \<and>
        totalPlayed s = 3 \<and> totalSolved s = 2 \<and> currentStreak s = 1 \<and> bestStreak s = 1 \<and>
        lastPlayedDate s = Some ''2025-01-03'' \<and> lastSolvedDate s = Some ''2025-01-03'')"
proof -
  have a: "requireUser signedIn = Inr alice" "user_id alice = ''alice''"
    by (simp_all add: requireUser_signedIn alice_def)
  have i: "input_challengeId (guessFor n v) = n" "input_isCorrect (guessFor n v) = v" for n v
    by (simp_all add: guessFor_def)
  note facts = a i challengeOf_db0 challengeOf_later isActive_days challengeDate_days
    statsOf_fixtures orElse_def
  show ?thesis
    using recordAttempt_transition_table
            [where ctx = signedIn and u = alice and input = "guessFor 1 (Some True)" and d = db0
               and c = day1 and t_attempt = 10 and t_stats = 11]
          recordAttempt_transition_table
            [where ctx = signedIn and u = alice and input = "guessFor 2 None" and d = db0
               and c = day2 and t_attempt = 10 and t_stats = 11]
          recordAttempt_transition_table
            [where ctx = signedIn and u = alice and input = "guessFor 2 (Some False)" and d = db1
               and c = day2 and t_attempt = 20 and t_stats = 21]
          recordAttempt_transition_table
            [where ctx = signedIn and u = alice and input = "guessFor 3 (Some True)" and d = db2
               and c = day3 and t_attempt = 30 and t_stats = 31]
    by (simp add: facts)
qed

section \<open>Counting\<close>

text \<open>
  C2. Starting from a user without a statistics row, after any finite sequence of calls of
  \<open>recordAttempt\<close> that each find an active challenge, the user's row has \<open>totalPlayed\<close>
  equal to the number of calls and \<open>totalSolved\<close> equal to the number of calls whose
  outcome was correct; there is no row only after the empty sequence.
\<close>

theorem totals_count_outcomes:
  assumes "requireUser ctx = Inr u" and "statsOf (user_id u) d = None"
    and "\<forall>x\<in>set calls. findsActive (fst x) d"
  shows "case statsOf (user_id u) (recordAttempts calls ctx d) of
           None \<Rightarrow> calls = []
         | Some s \<Rightarrow>
             totalPlayed s = int (length calls) \<and>
             totalSolved s = int (length (filter (\<lambda>x. orElse (input_isCorrect (fst x)) False) calls))"
proof -
  let ?os = "map (\<lambda>x. outcomeOf d (fst x)) calls"
  have run: "map_option StatsFields.truncate (statsOf (user_id u) (recordAttempts calls ctx d)) =
        applyOutcomes None ?os"
    using statsOf_recordAttempts [OF assms(1) assms(3)] assms(2) by simp
  show ?thesis
  proof (cases "statsOf (user_id u) (recordAttempts calls ctx d)")
    case None
    then have "applyOutcomes None ?os = None" using run by simp
    then show ?thesis using None by (simp add: applyOutcomes_None)
  next
    case (Some s)
    then have "applyOutcomes None ?os = Some (StatsFields.truncate s)" using run by simp
    from applyOutcomes_totals_fresh [OF this] show ?thesis
      by (simp add: Some fields_truncate filter_map comp_def fst_outcomeOf)
  qed
qed

theorem totals_count_outcomes_witness:
  "\<exists>s. statsOf ''alice'' (recordAttempts scenarioCalls signedIn db0) = Some s \<and>
       totalPlayed s = 3 \<and> totalSolved s = 2"
  using totals_count_outcomes [where ctx = signedIn and u = alice and d = db0 and calls = scenarioCalls]
  by (simp add: requireUser_signedIn alice_id statsOf_fixtures scenarioCalls_def findsActive_db0
      guessFor_sel orElse_def split: option.splits)

section \<open>Invariants\<close>

text \<open>
  C3. Starting from a user without a statistics row, after any non-empty sequence of such
  calls, made one after another, the user's row satisfies \<open>totalSolved \<le> totalPlayed\<close> and
  \<open>currentStreak \<le> bestStreak\<close>; and from each application to the next, \<open>bestStreak\<close> does
  not decrease.
\<close>

theorem stats_invariants:
  assumes "requireUser ctx = Inr u" and "statsOf (user_id u) d = None"
    and "\<forall>x\<in>set calls. findsActive (fst x) d"
  shows "(calls \<noteq> [] \<longrightarrow>
            (\<exists>s. statsOf (user_id u) (recordAttempts calls ctx d) = Some s \<and>
                 totalSolved s \<le> totalPlayed s \<and> currentStreak s \<le> bestStreak s)) \<and>
         (\<forall>n<length calls. \<forall>p.
            statsOf (user_id u) (recordAttempts (take n calls) ctx d) = Some p \<longrightarrow>
            (\<exists>q. statsOf (user_id u) (recordAttempts (take (Suc n) calls) ctx d) = Some q \<and>
                 bestStreak p \<le> bestStreak q))"
proof (intro conjI impI allI)
  assume ne: "calls \<noteq> []"
  let ?os = "map (\<lambda>x. outcomeOf d (fst x)) calls"
  have run: "map_option StatsFields.truncate (statsOf (user_id u) (recordAttempts calls ctx d)) =
        applyOutcomes None ?os"
    using statsOf_recordAttempts [OF assms(1) assms(3)] assms(2) by simp
  have "applyOutcomes None ?os \<noteq> None"
    using ne by (simp add: applyOutcomes_None)
  then obtain s where s: "statsOf (user_id u) (recordAttempts calls ctx d) = Some s"
    "applyOutcomes None ?os = Some (StatsFields.truncate s)"
    using run by (cases "statsOf (user_id u) (recordAttempts calls ctx d)") auto
  from applyOutcomes_consistent_fresh [OF s(2)] s(1)
  show "\<exists>s. statsOf (user_id u) (recordAttempts calls ctx d) = Some s \<and>
            totalSolved s \<le> totalPlayed s \<and> currentStreak s \<le> bestStreak s"
    by (simp add: consistent_def fields_truncate)
next
  fix n p
  assume n: "n < length calls"
    and p: "statsOf (user_id u) (recordAttempts (take n calls) ctx d) = Some p"
  let ?d = "recordAttempts (take n calls) ctx d"
  obtain input t_attempt t_stats where x: "calls ! n = (input, t_attempt, t_stats)"
    by (cases "calls ! n") auto
  have "findsActive input d"
    using assms(3) n x by (metis fst_conv nth_mem)
  then obtain c where c: "challengeOf (input_challengeId input) ?d = Some c" "isActive c"
    using findsActive_challenge [of input d] by auto
  have step: "recordAttempts (take (Suc n) calls) ctx d = snd (recordAttempt input ctx t_attempt t_stats ?d)"
    using n x by (simp add: take_Suc_conv_app_nth recordAttempts_append)
  from statsOf_recordAttempt [OF assms(1) c, of t_attempt t_stats] p
  obtain q where q: "statsOf (user_id u) (snd (recordAttempt input ctx t_attempt t_stats ?d)) = Some q"
    "StatsFields.truncate q = updatedStats (Some p) (orElse (input_isCorrect input) False) (challengeDate c)"
    by auto
  have "bestStreak p \<le> bestStreak (StatsFields.truncate q)"
    unfolding q(2) by (rule bestStreak_next)
  then show "\<exists>q. statsOf (user_id u) (recordAttempts (take (Suc n) calls) ctx d) = Some q \<and>
                 bestStreak p \<le> bestStreak q"
    using q(1) step by (simp add: fields_truncate)
qed

theorem stats_invariants_witness:
  "(\<exists>s. statsOf ''alice'' (recordAttempts scenarioCalls signedIn db0) = Some s \<and>
        totalSolved s \<le> totalPlayed s \<and> currentStreak s \<le> bestStreak s) \<and>
   (\<exists>q. statsOf ''alice'' (recordAttempts (take 2 scenarioCalls) signedIn db0) = Some q \<and>
        1 \<le> bestStreak q)"
proof -
  note t = stats_invariants [where ctx = signedIn and u = alice and d = db0 and calls = scenarioCalls]
  have h: "requireUser signedIn = Inr alice" "statsOf (user_id alice) db0 = None"
    "\<forall>x\<in>set scenarioCalls. findsActive (fst x) db0"
    by (simp_all add: requireUser_signedIn alice_id statsOf_fixtures scenarioCalls_def findsActive_db0)
  have p: "statsOf (user_id alice) (recordAttempts (take 1 scenarioCalls) signedIn db0) =
      Some \<lparr>totalPlayed = 1, totalSolved = 1, currentStreak = 1, bestStreak = 1,
           lastPlayedDate = Some ''2025-01-01'', lastSolvedDate = Some ''2025-01-01'',
           stats_id = 1, stats_userId = ''alice'', updatedAt = 11\<rparr>"
    using statsOf_fixtures(2) by (simp add: scenarioCalls_def db1_def alice_id)
  have n: "1 < length scenarioCalls" "scenarioCalls \<noteq> []" "Suc 1 = 2"
    by (simp_all add: scenarioCalls_def)
  from t [OF h] n(2) have a: "\<exists>s. statsOf ''alice'' (recordAttempts scenarioCalls signedIn db0) = Some s \<and>
        totalSolved s \<le> totalPlayed s \<and> currentStreak s \<le> bestStreak s"
    by (simp add: alice_id)
  from t [OF h] have "\<forall>n<length scenarioCalls. \<forall>p.
            statsOf (user_id alice) (recordAttempts (take n scenarioCalls) signedIn db0) = Some p \<longrightarrow>
            (\<exists>q. statsOf (user_id alice) (recordAttempts (take (Suc n) scenarioCalls) signedIn db0) = Some q \<and>
                 bestStreak p \<le> bestStreak q)"
    by (rule conjunct2)
  from this [rule_format, OF n(1) p] have "\<exists>q. statsOf ''alice'' (recordAttempts (take 2 scenarioCalls) signedIn db0) = Some q \<and>
        1 \<le> bestStreak q"
    by (simp add: alice_id numeral_2_eq_2)
  with a show ?thesis by (rule conjI)
qed

section \<open>Errors\<close>

text \<open>
  C4. A call of \<open>recordAttempt\<close> whose \<open>challengeId\<close> finds no challenge, or finds one that
  is not active, writes nothing: the three tables are as they were. For a signed-in
  caller, the one the recorder's contract is about, the call fails with the not-found
  error after a single query, the lookup of the challenge.
\<close>

theorem not_found_writes_nothing:
  assumes "challengeOf (input_challengeId input) d = None \<or>
           (\<exists>c. challengeOf (input_challengeId input) d = Some c \<and> \<not> isActive c)"
  shows "(\<forall>u. requireUser ctx = Inr u \<longrightarrow>
            fst (recordAttempt input ctx t_attempt t_stats d) =
              Inl (ActionError NOT_FOUND ''Challenge not available.'') \<and>
            accesses (snd (recordAttempt input ctx t_attempt t_stats d)) =
              accesses d @ [Select TDailyChallenges]) \<and>
         DailyChallengeAttempts (snd (recordAttempt input ctx t_attempt t_stats d)) = DailyChallengeAttempts d \<and>
         UserChallengeStats (snd (recordAttempt input ctx t_attempt t_stats d)) = UserChallengeStats d \<and>
         DailyChallenges (snd (recordAttempt input ctx t_attempt t_stats d)) = DailyChallenges d"
proof (cases "requireUser ctx")
  case (Inl e)
  then show ?thesis
    by (simp add: recordAttempt_def loadChallenge_def)
next
  case (Inr u)
  have "\<not> findsActive input d"
    using assms by (auto simp add: findsActive_def)
  from loadChallenge_missing [OF Inr this] Inr show ?thesis
    by (simp add: recordAttempt_def accessed_def)
qed

theorem not_found_writes_nothing_witness:
  "fst (recordAttempt (guessFor 5 (Some True)) signedIn 40 41 db2) =
     Inl (ActionError NOT_FOUND ''Challenge not available.'') \<and>
   DailyChallengeAttempts (snd (recordAttempt (guessFor 5 (Some True)) signedIn 40 41 db2)) = DailyChallengeAttempts db2 \<and>
   UserChallengeStats (snd (recordAttempt (guessFor 5 (Some True)) signedIn 40 41 db2)) = UserChallengeStats db2 \<and>
   fst (recordAttempt (guessFor 4 (Some True)) signedIn 40 41 db2) =
     Inl (ActionError NOT_FOUND ''Challenge not available.'') \<and>
   DailyChallengeAttempts (snd (recordAttempt (guessFor 4 (Some True)) signedIn 40 41 db2)) = DailyChallengeAttempts db2 \<and>
   UserChallengeStats (snd (recordAttempt (guessFor 4 (Some True)) signedIn 40 41 db2)) = UserChallengeStats db2"
  using not_found_writes_nothing
          [where ctx = signedIn and input = "guessFor 5 (Some True)" and d = db2
             and t_attempt = 40 and t_stats = 41]
        not_found_writes_nothing
          [where ctx = signedIn and input = "guessFor 4 (Some True)" and d = db2
             and t_attempt = 40 and t_stats = 41]
  by (simp add: requireUser_signedIn guessFor_sel challengeOf_later challengeOf_db0 isActive_days)

text \<open>
  C5. Without a user in the context, \<open>recordAttempt\<close>, \<open>listAttempts\<close> and \<open>getStats\<close> fail
  with the authorization error and leave the database, the record of its queries
  included, exactly as it was: no table is read or written.
\<close>

theorem unauthorized_before_storage:
  assumes "(case locals ctx of None \<Rightarrow> None | Some l \<Rightarrow> user l) = None"
  shows "recordAttempt input ctx t_attempt t_stats d =
           (Inl (ActionError UNAUTHORIZED ''You must be signed in to perform this action.''), d) \<and>
         listAttempts filter_input ctx d =
           (Inl (ActionError UNAUTHORIZED ''You must be signed in to perform this action.''), d) \<and>
         getStats ctx d =
           (Inl (ActionError UNAUTHORIZED ''You must be signed in to perform this action.''), d)"
  using assms
  by (simp add: recordAttempt_def loadChallenge_def listAttempts_def getStats_def requireUser_def)

theorem unauthorized_before_storage_witness:
  "recordAttempt (guessFor 1 (Some True)) signedOut 40 41 db2 =
     (Inl (ActionError UNAUTHORIZED ''You must be signed in to perform this action.''), db2) \<and>
   listAttempts None signedOut db2 =
     (Inl (ActionError UNAUTHORIZED ''You must be signed in to perform this action.''), db2) \<and>
   getStats signedOut db2 =
     (Inl (ActionError UNAUTHORIZED ''You must be signed in to perform this action.''), db2) \<and>
   recordAttempt (guessFor 1 (Some True)) \<lparr>locals = None\<rparr> 40 41 db2 =
     (Inl (ActionError UNAUTHORIZED ''You must be signed in to perform this action.''), db2)"
  using unauthorized_before_storage
          [where ctx = signedOut and input = "guessFor 1 (Some True)" and t_attempt = 40
             and t_stats = 41 and d = db2 and filter_input = None]
        unauthorized_before_storage
          [where ctx = "\<lparr>locals = None\<rparr>" and input = "guessFor 1 (Some True)" and t_attempt = 40
             and t_stats = 41 and d = db2 and filter_input = None]
  by (simp add: signedOut_def)

section \<open>Dates\<close>

text \<open>
  C6. With a statistics row present, the four counters after a call do not depend on the
  date of the challenge played: two calls with the same outcome against any two active
  challenges, from the same database, leave the same \<open>totalPlayed\<close>, \<open>totalSolved\<close>,
  \<open>currentStreak\<close> and \<open>bestStreak\<close>, and a correct outcome adds 1 to \<open>currentStreak\<close>
  whatever the two dates and the prior \<open>lastPlayedDate\<close> are.
\<close>

theorem streak_ignores_dates:
  assumes "requireUser ctx = Inr u" and "statsOf (user_id u) d = Some prior"
    and "challengeOf (input_challengeId input1) d = Some c1" and "isActive c1"
    and "challengeOf (input_challengeId input2) d = Some c2" and "isActive c2"
    and "orElse (input_isCorrect input1) False = orElse (input_isCorrect input2) False"
  shows "\<exists>s1 s2.
           statsOf (user_id u) (snd (recordAttempt input1 ctx t1 t2 d)) = Some s1 \<and>
           statsOf (user_id u) (snd (recordAttempt input2 ctx t3 t4 d)) = Some s2 \<and>
           totalPlayed s1 = totalPlayed s2 \<and> totalSolved s1 = totalSolved s2 \<and>
           currentStreak s1 = currentStreak s2 \<and> bestStreak s1 = bestStreak s2 \<and>
           (orElse (input_isCorrect input1) False \<longrightarrow> currentStreak s1 = currentStreak prior + 1)"
proof -
  from statsOf_recordAttempt [OF assms(1) assms(3) assms(4), of t1 t2] assms(2)
  obtain s1 where s1: "statsOf (user_id u) (snd (recordAttempt input1 ctx t1 t2 d)) = Some s1"
    "StatsFields.truncate s1 = updatedStats (Some prior) (orElse (input_isCorrect input1) False) (challengeDate c1)"
    by auto
  from statsOf_recordAttempt [OF assms(1) assms(5) assms(6), of t3 t4] assms(2) assms(7)
  obtain s2 where s2: "statsOf (user_id u) (snd (recordAttempt input2 ctx t3 t4 d)) = Some s2"
    "StatsFields.truncate s2 = updatedStats (Some prior) (orElse (input_isCorrect input1) False) (challengeDate c2)"
    by auto
  have "totalPlayed (StatsFields.truncate s1) = totalPlayed (StatsFields.truncate s2)"
    "totalSolved (StatsFields.truncate s1) = totalSolved (StatsFields.truncate s2)"
    "currentStreak (StatsFields.truncate s1) = currentStreak (StatsFields.truncate s2)"
    "bestStreak (StatsFields.truncate s1) = bestStreak (StatsFields.truncate s2)"
    "orElse (input_isCorrect input1) False \<longrightarrow> currentStreak (StatsFields.truncate s1) = currentStreak prior + 1"
    unfolding s1(2) s2(2) by (simp_all add: updatedStats_def)
  then show ?thesis using s1(1) s2(1) by (simp add: fields_truncate)
qed

theorem streak_ignores_dates_witness:
  "\<exists>s1 s2.
      statsOf ''alice'' (snd (recordAttempt (guessFor 2 (Some True)) signedIn 20 21 db1)) = Some s1 \<and>
      statsOf ''alice'' (snd (recordAttempt (guessFor 3 (Some True)) signedIn 30 31 db1)) = Some s2 \<and>
      totalPlayed s1 = totalPlayed s2 \<and> totalSolved s1 = totalSolved s2 \<and>
      currentStreak s1 = currentStreak s2 \<and> bestStreak s1 = bestStreak s2 \<and> currentStreak s1 = 2"
  using streak_ignores_dates
          [where ctx = signedIn and u = alice and d = db1 and ?input1.0 = "guessFor 2 (Some True)"
             and ?input2.0 = "guessFor 3 (Some True)" and ?c1.0 = day2 and ?c2.0 = day3
             and ?t1.0 = 20 and ?t2.0 = 21 and ?t3.0 = 30 and ?t4.0 = 31]
  by (simp add: requireUser_signedIn alice_id statsOf_fixtures guessFor_sel challengeOf_later
      challengeOf_db0 isActive_days orElse_def)

section \<open>Retries\<close>

text \<open>
  C7. Recording is not idempotent. Making the same call twice in succession leaves
  \<open>totalPlayed\<close> one higher than making it once, and two higher than the prior value (2 from
  no row); for a correct outcome \<open>totalSolved\<close> and \<open>currentStreak\<close> are two higher as
  well.
\<close>

theorem retry_counts_twice:
  assumes "requireUser ctx = Inr u"
    and "challengeOf (input_challengeId input) d = Some c" and "isActive c"
  shows "\<exists>s1 s2.
           statsOf (user_id u) (recordAttempts [(input, t1, t2)] ctx d) = Some s1 \<and>
           statsOf (user_id u) (recordAttempts [(input, t1, t2), (input, t3, t4)] ctx d) = Some s2 \<and>
           totalPlayed s2 = totalPlayed s1 + 1 \<and>
           (case statsOf (user_id u) d of
              None \<Rightarrow>
                totalPlayed s2 = 2 \<and>
                (orElse (input_isCorrect input) False \<longrightarrow> totalSolved s2 = 2 \<and> currentStreak s2 = 2)
            | Some prior \<Rightarrow>
                totalPlayed s2 = totalPlayed prior + 2 \<and>
                (orElse (input_isCorrect input) False \<longrightarrow>
                   totalSolved s2 = totalSolved prior + 2 \<and> currentStreak s2 = currentStreak prior + 2))"
proof -
  let ?d1 = "snd (recordAttempt input ctx t1 t2 d)"
  let ?d2 = "snd (recordAttempt input ctx t3 t4 ?d1)"
  let ?ok = "orElse (input_isCorrect input) False"
  from statsOf_recordAttempt [OF assms, of t1 t2]
  obtain s1 where s1: "statsOf (user_id u) ?d1 = Some s1"
    "StatsFields.truncate s1 = updatedStats (statsOf (user_id u) d) ?ok (challengeDate c)"
    by auto
  have c': "challengeOf (input_challengeId input) ?d1 = Some c"
    using assms(2) by simp
  from statsOf_recordAttempt [OF assms(1) c' assms(3), of t3 t4] s1(1)
  obtain s2 where s2: "statsOf (user_id u) ?d2 = Some s2"
    "StatsFields.truncate s2 = updatedStats (Some s1) ?ok (challengeDate c)"
    by auto
  have f2: "totalPlayed s2 = totalPlayed s1 + 1"
    "?ok \<longrightarrow> totalSolved s2 = totalSolved s1 + 1 \<and> currentStreak s2 = currentStreak s1 + 1"
    using arg_cong [OF s2(2), of totalPlayed] arg_cong [OF s2(2), of totalSolved]
      arg_cong [OF s2(2), of currentStreak]
    by (simp_all add: fields_truncate updatedStats_def)
  have f1: "case statsOf (user_id u) d of
              None \<Rightarrow> totalPlayed s1 = 1 \<and> (?ok \<longrightarrow> totalSolved s1 = 1 \<and> currentStreak s1 = 1)
            | Some prior \<Rightarrow> totalPlayed s1 = totalPlayed prior + 1 \<and>
                (?ok \<longrightarrow> totalSolved s1 = totalSolved prior + 1 \<and> currentStreak s1 = currentStreak prior + 1)"
    using arg_cong [OF s1(2), of totalPlayed] arg_cong [OF s1(2), of totalSolved]
      arg_cong [OF s1(2), of currentStreak]
    by (simp add: fields_truncate updatedStats_def split: option.splits)
  show ?thesis
    using s1(1) s2(1) f1 f2 by (auto split: option.splits)
qed

theorem retry_counts_twice_witness:
  "(\<exists>s1 s2.
      statsOf ''alice'' (recordAttempts [(guessFor 1 (Some True), 10, 11)] signedIn db0) = Some s1 \<and>
      statsOf ''alice'' (recordAttempts [(guessFor 1 (Some True), 10, 11), (guessFor 1 (Some True), 12, 13)] signedIn db0) = Some s2 \<and>
      totalPlayed s2 = totalPlayed s1 + 1 \<and> totalPlayed s2 = 2 \<and> totalSolved s2 = 2 \<and> currentStreak s2 = 2) \<and>
   (\<exists>s1 s2.
      statsOf ''alice'' (recordAttempts [(guessFor 2 (Some True), 20, 21)] signedIn db1) = Some s1 \<and>
      statsOf ''alice'' (recordAttempts [(guessFor 2 (Some True), 20, 21), (guessFor 2 (Some True), 22, 23)] signedIn db1) = Some s2 \<and>
      totalPlayed s2 = totalPlayed s1 + 1 \<and> totalPlayed s2 = 3 \<and> totalSolved s2 = 3 \<and> currentStreak s2 = 3)"
  using retry_counts_twice
          [where ctx = signedIn and u = alice and d = db0 and input = "guessFor 1 (Some True)"
             and c = day1 and ?t1.0 = 10 and ?t2.0 = 11 and ?t3.0 = 12 and ?t4.0 = 13]
        retry_counts_twice
          [where ctx = signedIn and u = alice and d = db1 and input = "guessFor 2 (Some True)"
             and c = day2 and ?t1.0 = 20 and ?t2.0 = 21 and ?t3.0 = 22 and ?t4.0 = 23]
  by (simp add: requireUser_signedIn alice_id statsOf_fixtures guessFor_sel challengeOf_later
      challengeOf_db0 isActive_days orElse_def)

section \<open>Defaults\<close>

lemma nextId_above: "x \<in> set ids \<Longrightarrow> x < nextId ids"
proof -
  have "a \<le> fold max xs a \<and> (\<forall>x\<in>set xs. x \<le> fold max xs a)" for xs :: "int list" and a
  proof (induction xs arbitrary: a)
    case Nil
    then show ?case by simp
  next
    case (Cons y xs)
    from Cons.IH [of "max y a"] show ?case by auto
  qed
  from this [of 0 ids] show "x \<in> set ids \<Longrightarrow> x < nextId ids"
    by (auto simp add: nextId_def)
qed

lemma recordAttempt_unauthorized:
  "requireUser ctx = Inl e \<Longrightarrow> recordAttempt input ctx t_attempt t_stats d = (Inl e, d)"
  by (simp add: recordAttempt_def loadChallenge_def)

lemma orElse_simps [simp]: "orElse None y = y" "orElse (Some x) y = x"
  by (simp_all add: orElse_def)

text \<open>
  C8. In \<open>recordAttempt\<close> an omitted \<open>isCorrect\<close> is \<open>false\<close> and an omitted \<open>attemptNumber\<close>
  is 1: the call returns the same result and leaves the same database, attempt row and
  statistics alike, as the call with the value written out. A call that succeeds returns
  the attempt row it stored, the last row of the table, with the id the database assigned
  (larger than every id before it) and the time of the insert.
\<close>

theorem recordAttempt_defaults:
  "recordAttempt (input\<lparr>input_isCorrect := None\<rparr>) ctx t_attempt t_stats d =
     recordAttempt (input\<lparr>input_isCorrect := Some False\<rparr>) ctx t_attempt t_stats d \<and>
   recordAttempt (input\<lparr>input_attemptNumber := None\<rparr>) ctx t_attempt t_stats d =
     recordAttempt (input\<lparr>input_attemptNumber := Some 1\<rparr>) ctx t_attempt t_stats d \<and>
   (\<forall>u. requireUser ctx = Inr u \<and> findsActive input d \<longrightarrow>
      fst (recordAttempt input ctx t_attempt t_stats d) =
        Inr \<lparr>attempt_id = nextId (map attempt_id (DailyChallengeAttempts d)),
             challengeId = input_challengeId input, attempt_userId = user_id u,
             guess = input_guess input, isCorrect = orElse (input_isCorrect input) False,
             attemptNumber = orElse (input_attemptNumber input) 1,
             attempt_createdAt = t_attempt\<rparr>) \<and>
   (\<forall>a. fst (recordAttempt input ctx t_attempt t_stats d) = Inr a \<longrightarrow>
      DailyChallengeAttempts (snd (recordAttempt input ctx t_attempt t_stats d)) =
        DailyChallengeAttempts d @ [a] \<and>
      (\<forall>b\<in>set (DailyChallengeAttempts d). attempt_id b < attempt_id a))"
proof (intro conjI allI impI)
  have "loadChallenge (input\<lparr>input_isCorrect := None\<rparr>) = loadChallenge (input\<lparr>input_isCorrect := Some False\<rparr>)"
    "storeAttempt (input\<lparr>input_isCorrect := None\<rparr>) = storeAttempt (input\<lparr>input_isCorrect := Some False\<rparr>)"
    "writeStats (input\<lparr>input_isCorrect := None\<rparr>) = writeStats (input\<lparr>input_isCorrect := Some False\<rparr>)"
    by (intro ext, simp add: loadChallenge_def storeAttempt_def writeStats_def split: sum.splits)+
  note verdict = this
  show "recordAttempt (input\<lparr>input_isCorrect := None\<rparr>) ctx t_attempt t_stats d =
     recordAttempt (input\<lparr>input_isCorrect := Some False\<rparr>) ctx t_attempt t_stats d"
    unfolding recordAttempt_def verdict by (rule refl)
  have "loadChallenge (input\<lparr>input_attemptNumber := None\<rparr>) = loadChallenge (input\<lparr>input_attemptNumber := Some 1\<rparr>)"
    "storeAttempt (input\<lparr>input_attemptNumber := None\<rparr>) = storeAttempt (input\<lparr>input_attemptNumber := Some 1\<rparr>)"
    "writeStats (input\<lparr>input_attemptNumber := None\<rparr>) = writeStats (input\<lparr>input_attemptNumber := Some 1\<rparr>)"
    by (intro ext, simp add: loadChallenge_def storeAttempt_def writeStats_def split: sum.splits)+
  note ordinal = this
  show "recordAttempt (input\<lparr>input_attemptNumber := None\<rparr>) ctx t_attempt t_stats d =
     recordAttempt (input\<lparr>input_attemptNumber := Some 1\<rparr>) ctx t_attempt t_stats d"
    unfolding recordAttempt_def ordinal by (rule refl)
next
  fix u
  assume "requireUser ctx = Inr u \<and> findsActive input d"
  then obtain c where c: "requireUser ctx = Inr u" "challengeOf (input_challengeId input) d = Some c" "isActive c"
    using findsActive_challenge [of input d] by auto
  show "fst (recordAttempt input ctx t_attempt t_stats d) =
        Inr \<lparr>attempt_id = nextId (map attempt_id (DailyChallengeAttempts d)),
             challengeId = input_challengeId input, attempt_userId = user_id u,
             guess = input_guess input, isCorrect = orElse (input_isCorrect input) False,
             attemptNumber = orElse (input_attemptNumber input) 1,
             attempt_createdAt = t_attempt\<rparr>"
    by (simp add: recordAttempt_found [OF c] Let_def storeAttempt_def insertAttempt_def accessed_def)
next
  fix a
  assume a: "fst (recordAttempt input ctx t_attempt t_stats d) = Inr a"
  obtain u where u: "requireUser ctx = Inr u"
    using a recordAttempt_unauthorized [of ctx _ input t_attempt t_stats d]
    by (cases "requireUser ctx") auto
  have "findsActive input d"
  proof (rule ccontr)
    assume "\<not> findsActive input d"
    from loadChallenge_missing [OF u this] a show False
      by (simp add: recordAttempt_def)
  qed
  then obtain c where c: "challengeOf (input_challengeId input) d = Some c" "isActive c"
    using findsActive_challenge [of input d] by auto
  have r: "a = \<lparr>attempt_id = nextId (map attempt_id (DailyChallengeAttempts d)),
             challengeId = input_challengeId input, attempt_userId = user_id u,
             guess = input_guess input, isCorrect = orElse (input_isCorrect input) False,
             attemptNumber = orElse (input_attemptNumber input) 1,
             attempt_createdAt = t_attempt\<rparr>"
    using a by (simp add: recordAttempt_found [OF u c] Let_def storeAttempt_def insertAttempt_def accessed_def)
  show "DailyChallengeAttempts (snd (recordAttempt input ctx t_attempt t_stats d)) =
        DailyChallengeAttempts d @ [a]"
    by (simp add: r recordAttempt_found [OF u c] Let_def storeAttempt_def insertAttempt_def accessed_def
        writeStats_def insertStats_def updateStats_def split: option.splits)
  show "\<forall>b\<in>set (DailyChallengeAttempts d). attempt_id b < attempt_id a"
    by (simp add: r nextId_above)
qed

theorem recordAttempt_defaults_witness:
  "fst (recordAttempt (guessFor 1 None) signedIn 40 41 db2) =
     Inr \<lparr>attempt_id = 3, challengeId = 1, attempt_userId = ''alice'', guess = ''apple'',
          isCorrect = False, attemptNumber = 1, attempt_createdAt = 40\<rparr> \<and>
   DailyChallengeAttempts (snd (recordAttempt (guessFor 1 None) signedIn 40 41 db2)) =
     DailyChallengeAttempts db2 @
       [\<lparr>attempt_id = 3, challengeId = 1, attempt_userId = ''alice'', guess = ''apple'',
         isCorrect = False, attemptNumber = 1, attempt_createdAt = 40\<rparr>]"
proof -
  note t = recordAttempt_defaults [where input = "guessFor 1 None" and ctx = signedIn and d = db2
      and t_attempt = 40 and t_stats = 41]
  have h: "requireUser signedIn = Inr alice \<and> findsActive (guessFor 1 None) db2"
    by (simp add: requireUser_signedIn findsActive_def guessFor_sel challengeOf_later challengeOf_db0
        isActive_days)
  from t have "\<forall>u. requireUser signedIn = Inr u \<and> findsActive (guessFor 1 None) db2 \<longrightarrow>
      fst (recordAttempt (guessFor 1 None) signedIn 40 41 db2) =
        Inr \<lparr>attempt_id = nextId (map attempt_id (DailyChallengeAttempts db2)),
             challengeId = input_challengeId (guessFor 1 None), attempt_userId = user_id u,
             guess = input_guess (guessFor 1 None), isCorrect = orElse (input_isCorrect (guessFor 1 None)) False,
             attemptNumber = orElse (input_attemptNumber (guessFor 1 None)) 1,
             attempt_createdAt = 40\<rparr>"
    by blast
  from this [rule_format, OF h]
  have a: "fst (recordAttempt (guessFor 1 None) signedIn 40 41 db2) =
     Inr \<lparr>attempt_id = 3, challengeId = 1, attempt_userId = ''alice'', guess = ''apple'',
          isCorrect = False, attemptNumber = 1, attempt_createdAt = 40\<rparr>"
    by (simp add: db2_eq nextId_def guessFor_def alice_id)
  from t have "\<forall>a. fst (recordAttempt (guessFor 1 None) signedIn 40 41 db2) = Inr a \<longrightarrow>
      DailyChallengeAttempts (snd (recordAttempt (guessFor 1 None) signedIn 40 41 db2)) =
        DailyChallengeAttempts db2 @ [a] \<and>
      (\<forall>b\<in>set (DailyChallengeAttempts db2). attempt_id b < attempt_id a)"
    by blast
  from this [rule_format, OF a] a show ?thesis by blast
qed

section \<open>Concurrent submissions\<close>










section \<open>Listing\<close>

text \<open>
  C10. For a signed-in user, \<open>listAttempts\<close> with \<open>challengeId = 0\<close> returns all of that
  user's attempts, the rows of the attempts table whose \<open>userId\<close> is the caller's id, in
  table order, and no other user's; it does the same without a \<open>challengeId\<close>. Only a
  \<open>challengeId\<close> other than 0 narrows the result, to the caller's rows with that
  \<open>challengeId\<close>. Neither call writes.
\<close>

theorem listAttempts_zero_is_no_filter:
  assumes "requireUser ctx = Inr u"
  shows "fst (listAttempts (Some \<lparr>filter_challengeId = Some 0\<rparr>) ctx d) =
           Inr (filter (\<lambda>a. attempt_userId a = user_id u) (DailyChallengeAttempts d)) \<and>
         fst (listAttempts (Some \<lparr>filter_challengeId = Some c\<rparr>) ctx d) =
           Inr (if c = 0
                then filter (\<lambda>a. attempt_userId a = user_id u) (DailyChallengeAttempts d)
                else filter (\<lambda>a. attempt_userId a = user_id u \<and> challengeId a = c)
                       (DailyChallengeAttempts d)) \<and>
         fst (listAttempts (Some \<lparr>filter_challengeId = None\<rparr>) ctx d) =
           Inr (filter (\<lambda>a. attempt_userId a = user_id u) (DailyChallengeAttempts d)) \<and>
         fst (listAttempts None ctx d) =
           Inr (filter (\<lambda>a. attempt_userId a = user_id u) (DailyChallengeAttempts d)) \<and>
         DailyChallengeAttempts (snd (listAttempts (Some \<lparr>filter_challengeId = Some c\<rparr>) ctx d)) =
           DailyChallengeAttempts d"
proof -
  have both: "filter (\<lambda>a. challengeId a = c) (filter (\<lambda>a. attempt_userId a = user_id u) xs) =
      filter (\<lambda>a. attempt_userId a = user_id u \<and> challengeId a = c) xs" for xs :: "Attempt list"
    by (induction xs) auto
  show ?thesis
    using assms
    by (simp add: listAttempts_def selectAttempts_def truthyChallengeId_def attemptsByUser_def
        accessed_def both)
qed

theorem listAttempts_zero_is_no_filter_witness:
  "fst (listAttempts (Some \<lparr>filter_challengeId = Some 0\<rparr>) signedIn dbShared) =
     Inr [\<lparr>attempt_id = 1, challengeId = 1, attempt_userId = ''alice'', guess = ''apple'',
           isCorrect = True, attemptNumber = 1, attempt_createdAt = 10\<rparr>,
          \<lparr>attempt_id = 3, challengeId = 2, attempt_userId = ''alice'', guess = ''apple'',
           isCorrect = False, attemptNumber = 1, attempt_createdAt = 20\<rparr>] \<and>
   filter (\<lambda>a. attempt_userId a = ''alice'' \<and> challengeId a = 0) (DailyChallengeAttempts dbShared) = [] \<and>
   fst (listAttempts (Some \<lparr>filter_challengeId = Some 1\<rparr>) signedIn dbShared) =
     Inr [\<lparr>attempt_id = 1, challengeId = 1, attempt_userId = ''alice'', guess = ''apple'',
           isCorrect = True, attemptNumber = 1, attempt_createdAt = 10\<rparr>] \<and>
   length (DailyChallengeAttempts dbShared) = 3"
  using listAttempts_zero_is_no_filter [where ctx = signedIn and u = alice and d = dbShared and c = 1]
  by (simp add: requireUser_signedIn alice_id dbShared_def)

end
